theory Spec2Isabelle
  imports Complex_Main "HOL-Library.AList" "HOL-Library.List_Lexorder" "HOL-Library.Char_ord"
begin

section \<open>Values and objects\<close>

text \<open>
  The program handles plain JavaScript objects that are written to and read from a JSON
  document. A value is a JSON value; an object is the list of its own properties in
  property order, every key occurring once. The messages of the program use no
  integer-like keys, so property order is insertion order.
\<close>

datatype json =
    JNull
  | JBool bool
  | JNumber real
  | JString string
  | JArray "json list"
  | JObject "(string \<times> json) list"

type_synonym obj = "(string \<times> json) list"

text \<open>\<open>AIMessage\<close> and \<open>MessageWithMetadata\<close> (memory.ts, line 11) are object types.\<close>

type_synonym AIMessage = obj
type_synonym MessageWithMetadata = obj

definition keys :: "obj \<Rightarrow> string set" where
  "keys m = fst ` set m"

definition field :: "obj \<Rightarrow> string \<Rightarrow> json option" where
  "field m k = map_of m k"

text \<open>
  Modelled from the spec: the declaration of \<open>AIMessage\<close> (module \<open>types\<close>) is not among
  the source files. Section 3 of the specification gives a Message a \<open>role\<close> out of
  \<open>system\<close>, \<open>user\<close>, \<open>assistant\<close>, \<open>tool\<close>, a \<open>content\<close>, and a \<open>tool_call_id\<close> only for
  the role \<open>tool\<close>; \<open>id\<close> and \<open>createdAt\<close> are the two fields that only
  \<open>MessageWithMetadata\<close> adds (memory.ts, lines 11-14). The content and any further
  field of the message are left free.
\<close>

definition valid_Message :: "AIMessage \<Rightarrow> bool" where
  "valid_Message m \<longleftrightarrow>
     distinct (map fst m) \<and>
     (case field m ''role'' of
        Some (JString r) \<Rightarrow> r \<in> set [''system'', ''user'', ''assistant'', ''tool'']
      | _ \<Rightarrow> False) \<and>
     (''tool_call_id'' \<in> keys m \<longrightarrow> field m ''role'' = Some (JString ''tool'')) \<and>
     ''id'' \<notin> keys m \<and> ''createdAt'' \<notin> keys m"

section \<open>The environment of the memory component\<close>

text \<open>
  The document (memory.ts, lines 54-56) has one field, \<open>messages\<close>.
\<close>

record Data =
  messages :: "MessageWithMetadata list"

text \<open>
  \<open>uuidv4()\<close>, \<open>new Date().toISOString()\<close> and the lowdb document \<open>db.json\<close> are outside
  the program. The world records what they answer: the \<open>n\<close>-th call of \<open>uuidv4\<close> returns
  \<open>uuid_src n\<close>, the \<open>n\<close>-th reading of the clock returns \<open>clock_src n\<close>, and the \<open>n\<close>-th
  access to the file fails when \<open>io_fail n\<close> holds. \<open>db_json\<close> is the \<open>messages\<close> array
  of the document on disk, \<open>None\<close> while the file does not exist.

  \<open>defaultData\<close> is the one module-level object of line 59, \<open>{messages: []}\<close> when the
  module is loaded. It is part of the world because the program changes it in place
  (see \<open>push_messages\<close> below).
\<close>

datatype error = PersistenceError | EndpointError | TypeError

record world =
  db_json :: "MessageWithMetadata list option"
  defaultData :: Data
  uuid_src :: "nat \<Rightarrow> string"
  uuid_n :: nat
  clock_src :: "nat \<Rightarrow> string"
  clock_n :: nat
  io_fail :: "nat \<Rightarrow> bool"
  io_n :: nat

definition uuidv4 :: "world \<Rightarrow> string \<times> world" where
  "uuidv4 w = (uuid_src w (uuid_n w), w\<lparr>uuid_n := Suc (uuid_n w)\<rparr>)"

definition toISOString_now :: "world \<Rightarrow> string \<times> world" where
  "toISOString_now w = (clock_src w (clock_n w), w\<lparr>clock_n := Suc (clock_n w)\<rparr>)"

section \<open>memory.ts\<close>

text \<open>
  \<open>addMetadata\<close> (lines 27-31) builds \<open>{...message, id: uuidv4(), createdAt: new
  Date().toISOString()}\<close>: the properties of the message are copied in order, then
  \<open>id\<close> and \<open>createdAt\<close> are defined in this order; defining a key that is already there
  overwrites its value in place, defining a new key appends it. That is
  \<open>AList.update\<close>.
\<close>

definition addMetadata :: "AIMessage \<Rightarrow> world \<Rightarrow> MessageWithMetadata \<times> world" where
  "addMetadata message w =
     (case uuidv4 w of (i, w1) \<Rightarrow>
      case toISOString_now w1 of (t, w2) \<Rightarrow>
        (AList.update ''createdAt'' (JString t) (AList.update ''id'' (JString i) message), w2))"

text \<open>
  \<open>removeMetadata\<close> (lines 43-46): \<open>const {id, createdAt, ...messageWithoutMetadata} =
  message\<close> keeps every property but these two, in order.
\<close>

definition removeMetadata :: "MessageWithMetadata \<Rightarrow> AIMessage" where
  "removeMetadata message = AList.delete ''createdAt'' (AList.delete ''id'' message)"

text \<open>
  What \<open>db.data\<close> refers to after an opening of the store: the module-level
  \<open>defaultData\<close> object itself, or a new object parsed from the document.
\<close>

datatype data_ref = Shared_default | Parsed Data

text \<open>
  Modelled from the spec: \<open>JSONFilePreset\<close> and \<open>db.write\<close> belong to the lowdb package,
  which is not among the source files. Section 6 of the specification: the document
  is initialised to \<open>{messages: []}\<close> when absent, read fully and written fully by each
  operation. Section 7: the store cannot be read or written (PersistenceError), and a
  failed write leaves the document on disk as it was.

  The opening keeps the object that line 71 hands to it: while the document is absent,
  \<open>db.data\<close> is the \<open>defaultData\<close> object of line 59 itself, not a copy of it. When the
  document exists, \<open>db.data\<close> is a new object parsed from it.
\<close>

definition getDb :: "world \<Rightarrow> (error + data_ref) \<times> world" where
  "getDb w =
     (if io_fail w (io_n w) then (Inl PersistenceError, w\<lparr>io_n := Suc (io_n w)\<rparr>)
      else (Inr (case db_json w of None \<Rightarrow> Shared_default | Some ms \<Rightarrow> Parsed \<lparr>messages = ms\<rparr>),
            w\<lparr>io_n := Suc (io_n w)\<rparr>))"

text \<open>Reading \<open>db.data\<close>.\<close>

definition db_data :: "data_ref \<Rightarrow> world \<Rightarrow> Data" where
  "db_data db w = (case db of Shared_default \<Rightarrow> defaultData w | Parsed d \<Rightarrow> d)"

text \<open>
  \<open>db.data.messages.push(...)\<close> (line 88) changes the array in place: the array of the
  shared \<open>defaultData\<close> object when \<open>db.data\<close> is that object, the array of the parsed
  object otherwise.
\<close>

definition push_messages ::
  "data_ref \<Rightarrow> MessageWithMetadata list \<Rightarrow> world \<Rightarrow> data_ref \<times> world" where
  "push_messages db xs w =
     (case db of
        Shared_default \<Rightarrow>
          (Shared_default,
           w\<lparr>defaultData := (defaultData w)\<lparr>messages := messages (defaultData w) @ xs\<rparr>\<rparr>)
      | Parsed d \<Rightarrow> (Parsed (d\<lparr>messages := messages d @ xs\<rparr>), w))"

text \<open>\<open>db.write()\<close> (line 89) writes \<open>db.data\<close> as the new document.\<close>

definition db_write :: "data_ref \<Rightarrow> world \<Rightarrow> (error + unit) \<times> world" where
  "db_write db w =
     (if io_fail w (io_n w) then (Inl PersistenceError, w\<lparr>io_n := Suc (io_n w)\<rparr>)
      else (Inr (), w\<lparr>io_n := Suc (io_n w), db_json := Some (messages (db_data db w))\<rparr>))"

text \<open>\<open>messages.map(addMetadata)\<close> (line 87) calls \<open>addMetadata\<close> on each element in index order.\<close>

fun map_addMetadata :: "AIMessage list \<Rightarrow> world \<Rightarrow> MessageWithMetadata list \<times> world" where
  "map_addMetadata [] w = ([], w)"
| "map_addMetadata (m # ms) w =
     (case addMetadata m w of (x, w1) \<Rightarrow>
      case map_addMetadata ms w1 of (xs, w2) \<Rightarrow> (x # xs, w2))"

text \<open>
  \<open>addMessages\<close> (lines 85-90): open the store, enrich, push onto \<open>db.data.messages\<close>,
  write. A failure of \<open>getDb\<close> leaves the function before anything else happens; a
  failure of \<open>db.write()\<close> comes after the push.
\<close>

definition addMessages :: "AIMessage list \<Rightarrow> world \<Rightarrow> (error + unit) \<times> world" where
  "addMessages msgs w =
     (case getDb w of
        (Inl e, w1) \<Rightarrow> (Inl e, w1)
      | (Inr db, w1) \<Rightarrow>
          (case map_addMetadata msgs w1 of (messagesWithMetadata, w2) \<Rightarrow>
           case push_messages db messagesWithMetadata w2 of (db', w3) \<Rightarrow>
             db_write db' w3))"

text \<open>\<open>getMessages\<close> (lines 101-104).\<close>

definition getMessages :: "world \<Rightarrow> (error + AIMessage list) \<times> world" where
  "getMessages w =
     (case getDb w of
        (Inl e, w1) \<Rightarrow> (Inl e, w1)
      | (Inr db, w1) \<Rightarrow> (Inr (map removeMetadata (messages (db_data db w1))), w1))"


section \<open>The invocation component\<close>

text \<open>The tool descriptor of \<open>runLLM\<close> (line 24); \<open>'z\<close> is the type of zod object schemas.\<close>

record 'z ToolDescriptor =
  name :: string
  parameters :: 'z

record tool_def =
  fn_name :: string
  fn_parameters :: json

text \<open>
  Modelled from the spec: \<open>zodFunction\<close> belongs to the openai package, which is not
  among the source files. Sections 4.1 and 6 of the specification: each descriptor is
  translated into the tool definition the endpoint expects, its name and its
  parameters in the shape of a JSON schema. The conversion of the zod schema is a
  parameter.
\<close>

definition zodFunction :: "('z \<Rightarrow> json) \<Rightarrow> 'z ToolDescriptor \<Rightarrow> tool_def" where
  "zodFunction zodToJsonSchema tool =
     \<lparr>fn_name = name tool, fn_parameters = zodToJsonSchema (parameters tool)\<rparr>"

text \<open>The argument object of \<open>runLLM\<close> (lines 15-25); an omitted property is \<open>None\<close>.\<close>

record 'z runLLM_args =
  arg_model :: "string option"
  arg_messages :: "AIMessage list"
  arg_temperature :: "real option"
  arg_tools :: "'z ToolDescriptor list option"

text \<open>
  The request object of lines 28-41. The temperature is a number that is handed on as
  it is; no arithmetic is done on it.
\<close>

record request =
  req_model :: string
  req_temperature :: real
  req_messages :: "AIMessage list"
  req_tools :: "tool_def list"
  tool_choice :: string
  parallel_tool_calls :: bool

record choice =
  message :: obj

record response =
  choices :: "choice list"

definition models :: "string list" where
  "models = [''gpt-4o-mini'', ''mistral-nemo:latest'', ''nemotron-mini:latest'',
             ''codellama:13b'', ''llama3.1:latest'']"

text \<open>
  \<open>runLLM\<close> (lines 15-44). \<open>systemPrompt\<close> (module \<open>@src/systemPrompt\<close>) is a parameter, and
  so is the endpoint \<open>localai.chat.completions.create\<close>, which answers a request with
  an error or a response. The result is paired with the requests that were submitted.
  \<open>response.choices[0]\<close> is \<open>undefined\<close> for an empty array, and reading \<open>.message\<close> of
  \<open>undefined\<close> throws a TypeError.
\<close>

definition runLLM ::
  "string \<Rightarrow> ('z \<Rightarrow> json) \<Rightarrow> (request \<Rightarrow> error + response) \<Rightarrow> 'z runLLM_args
     \<Rightarrow> request list \<times> (error + obj)" where
  "runLLM systemPrompt zodToJsonSchema create a =
     (let model = (case arg_model a of None \<Rightarrow> models ! 1 | Some v \<Rightarrow> v);
          temperature = (case arg_temperature a of None \<Rightarrow> 1 / 10 | Some v \<Rightarrow> v);
          tools = (case arg_tools a of None \<Rightarrow> [] | Some v \<Rightarrow> v);
          formattedTools = map (zodFunction zodToJsonSchema) tools;
          req = \<lparr>req_model = model,
                 req_temperature = temperature,
                 req_messages =
                   [(''role'', JString ''system''), (''content'', JString systemPrompt)]
                   # arg_messages a,
                 req_tools = formattedTools,
                 tool_choice = ''auto'',
                 parallel_tool_calls = False\<rparr>
      in ([req],
          case create req of
            Inl e \<Rightarrow> Inl e
          | Inr response \<Rightarrow>
              (case choices response of
                 [] \<Rightarrow> Inl TypeError
               | c # _ \<Rightarrow> Inr (message c))))"

section \<open>Notions used in the statements\<close>

text \<open>
  \<open>loaded w\<close> is \<open>db.data.messages\<close> after an opening of the store in the world \<open>w\<close>: the
  array of the document, or the array of the shared \<open>defaultData\<close> object while the
  document is absent. \<open>document w\<close> is the durable log alone: the messages of the
  document, none while it is absent.
\<close>

definition loaded :: "world \<Rightarrow> MessageWithMetadata list" where
  "loaded w = (case db_json w of None \<Rightarrow> messages (defaultData w) | Some ms \<Rightarrow> ms)"

definition document :: "world \<Rightarrow> MessageWithMetadata list" where
  "document w = (case db_json w of None \<Rightarrow> [] | Some ms \<Rightarrow> ms)"

text \<open>
  Modelled from the spec: \<open>uuidv4\<close> (package uuid) and the clock behind \<open>new
  Date().toISOString()\<close> are not among the source files. Section 3 of the
  specification: an \<open>id\<close> is a globally unique identifier that is never reused, and
  \<open>createdAt\<close> is the creation timestamp in a sortable string format; section 4.2: the
  timestamp is the current one. So no two calls of the identifier generator give the
  same answer, and a later reading of the clock is not smaller than an earlier one in
  the order of strings.
\<close>

definition generators_ok :: "world \<Rightarrow> bool" where
  "generators_ok w \<longleftrightarrow>
     (\<forall>i j. i \<noteq> j \<longrightarrow> uuid_src w i \<noteq> uuid_src w j) \<and>
     (\<forall>i j. i \<le> j \<longrightarrow> clock_src w i \<le> clock_src w j)"

text \<open>
  The enrichment of the message at index \<open>k\<close> of a list handed to \<open>addMessages\<close> in the
  world \<open>w\<close>: its identifier is the answer of the \<open>k\<close>-th next call of \<open>uuidv4\<close>, its
  timestamp the \<open>k\<close>-th next reading of the clock.
\<close>

definition enrich_at :: "world \<Rightarrow> nat \<Rightarrow> AIMessage \<Rightarrow> MessageWithMetadata" where
  "enrich_at w k m =
     AList.update ''createdAt'' (JString (clock_src w (clock_n w + k)))
       (AList.update ''id'' (JString (uuid_src w (uuid_n w + k))) m)"

definition enriched :: "world \<Rightarrow> AIMessage list \<Rightarrow> MessageWithMetadata list" where
  "enriched w ms = map (\<lambda>k. enrich_at w k (ms ! k)) [0..<length ms]"

text \<open>A caller that appends one list of messages after the other and stops at the first failure.\<close>

fun addMessages_all :: "AIMessage list list \<Rightarrow> world \<Rightarrow> (error + unit) \<times> world" where
  "addMessages_all [] w = (Inr (), w)"
| "addMessages_all (b # bs) w =
     (case addMessages b w of
        (Inl e, w1) \<Rightarrow> (Inl e, w1)
      | (Inr u, w1) \<Rightarrow> addMessages_all bs w1)"

text \<open>Concrete inputs: the world of a new process without a document, in which no file
  access fails, and two messages.\<close>

definition world0 :: world where
  "world0 =
     \<lparr>db_json = None, defaultData = \<lparr>messages = []\<rparr>,
      uuid_src = (\<lambda>n. replicate (Suc n) CHR ''u''), uuid_n = 0,
      clock_src = (\<lambda>n. replicate (Suc n) CHR ''t''), clock_n = 0,
      io_fail = (\<lambda>n. False), io_n = 0\<rparr>"

definition msg_user :: AIMessage where
  "msg_user = [(''role'', JString ''user''), (''content'', JString ''hi'')]"

definition msg_assistant :: AIMessage where
  "msg_assistant = [(''role'', JString ''assistant''), (''content'', JString ''hello'')]"

text \<open>A document that already holds one message, and the same with a failing write
  (the second file access of \<open>addMessages\<close>); the new process without a document with a
  failing write.\<close>

definition stored_user :: MessageWithMetadata where
  "stored_user = msg_user @ [(''id'', JString ''u0''), (''createdAt'', JString ''t0'')]"

definition world1 :: world where
  "world1 = world0\<lparr>db_json := Some [stored_user]\<rparr>"

definition world_write_fails :: world where
  "world_write_fails = world1\<lparr>io_fail := (\<lambda>n. n = 1)\<rparr>"

definition world0_write_fails :: world where
  "world0_write_fails = world0\<lparr>io_fail := (\<lambda>n. n = 1)\<rparr>"

text \<open>Inputs of \<open>runLLM\<close>: a tool, an argument object, a schema conversion, an endpoint
  with one choice and an endpoint whose response has no choice.\<close>

definition tool0 :: "unit ToolDescriptor" where
  "tool0 = \<lparr>name = ''get_weather'', parameters = ()\<rparr>"

definition args0 :: "unit runLLM_args" where
  "args0 = \<lparr>arg_model = None, arg_messages = [msg_user], arg_temperature = None,
            arg_tools = Some []\<rparr>"

definition schema0 :: "unit \<Rightarrow> json" where
  "schema0 z = JObject [(''type'', JString ''object'')]"

definition endpoint_reply :: "request \<Rightarrow> error + response" where
  "endpoint_reply r = Inr \<lparr>choices = [\<lparr>message = msg_assistant\<rparr>]\<rparr>"

definition endpoint_empty :: "request \<Rightarrow> error + response" where
  "endpoint_empty r = Inr \<lparr>choices = []\<rparr>"

section \<open>Enrichment and stripping\<close>

lemma removeMetadata_update_fresh:
  assumes "''id'' \<notin> keys m" and "''createdAt'' \<notin> keys m"
  shows "removeMetadata (AList.update ''createdAt'' t (AList.update ''id'' i m)) = m"
proof -
  have "AList.delete ''id'' (AList.update ''createdAt'' t (AList.update ''id'' i m))
        = AList.update ''createdAt'' t (AList.delete ''id'' (AList.update ''id'' i m))"
    by (simp add: delete_update)
  also have "\<dots> = AList.update ''createdAt'' t m"
    using assms(1) by (simp add: delete_update_same keys_def)
  finally show ?thesis
    using assms(2) by (simp add: removeMetadata_def delete_update_same keys_def)
qed

lemma valid_Message_fresh:
  "valid_Message m \<Longrightarrow> ''id'' \<notin> keys m \<and> ''createdAt'' \<notin> keys m"
  by (simp add: valid_Message_def)

text \<open>
  C1. For every valid Message \<open>m\<close>, stripping the metadata of the enriched message gives
  back exactly \<open>m\<close>, whatever identifier and timestamp the environment supplies:
  \<open>removeMetadata (addMetadata m) = m\<close>, field by field and in the same property order.
\<close>

theorem removeMetadata_addMetadata:
  "valid_Message m \<Longrightarrow> removeMetadata (fst (addMetadata m w)) = m"
  using valid_Message_fresh [of m]
  by (simp add: addMetadata_def uuidv4_def toISOString_now_def removeMetadata_update_fresh)

theorem removeMetadata_addMetadata_witness:
  "valid_Message msg_user \<and> removeMetadata (fst (addMetadata msg_user world0)) = msg_user"
proof -
  have v: "valid_Message msg_user"
    by (simp add: valid_Message_def msg_user_def keys_def field_def)
  show ?thesis
    using v removeMetadata_addMetadata [OF v, of world0] by simp
qed

text \<open>
  The hypothesis is needed: an object that already has an \<open>id\<close> property is not a
  Message; its \<open>id\<close> is overwritten by the enrichment and removed by the stripping.
\<close>

lemma removeMetadata_addMetadata_with_id:
  "removeMetadata (fst (addMetadata [(''role'', JString ''user''), (''id'', JString ''x'')] w))
     = [(''role'', JString ''user'')]"
  by (simp add: addMetadata_def uuidv4_def toISOString_now_def removeMetadata_def)

lemma valid_msg_user: "valid_Message msg_user"
  by (simp add: valid_Message_def msg_user_def keys_def field_def)

lemma valid_msg_assistant: "valid_Message msg_assistant"
  by (simp add: valid_Message_def msg_assistant_def keys_def field_def)

section \<open>The store\<close>

lemma enrich_at_shift:
  "uuid_src w' = uuid_src w \<Longrightarrow> clock_src w' = clock_src w \<Longrightarrow>
   uuid_n w' = uuid_n w + j \<Longrightarrow> clock_n w' = clock_n w + j \<Longrightarrow>
   enrich_at w' k m = enrich_at w (j + k) m"
  by (simp add: enrich_at_def add.assoc)

lemma addMetadata_eq:
  "addMetadata m w = (enrich_at w 0 m, w\<lparr>uuid_n := Suc (uuid_n w), clock_n := Suc (clock_n w)\<rparr>)"
  by (simp add: addMetadata_def uuidv4_def toISOString_now_def enrich_at_def)

lemma enriched_Cons:
  assumes "uuid_src w' = uuid_src w" "clock_src w' = clock_src w"
    "uuid_n w' = Suc (uuid_n w)" "clock_n w' = Suc (clock_n w)"
  shows "enriched w (m # ms) = enrich_at w 0 m # enriched w' ms"
proof -
  have "enrich_at w' k x = enrich_at w (Suc k) x" for k x
    using enrich_at_shift [of w' w 1 k x] assms by simp
  then show ?thesis
    by (simp add: enriched_def map_upt_Suc del: upt_Suc)
qed

lemma map_addMetadata_eq:
  "map_addMetadata ms w =
     (enriched w ms, w\<lparr>uuid_n := uuid_n w + length ms, clock_n := clock_n w + length ms\<rparr>)"
proof (induction ms arbitrary: w)
  case Nil
  show ?case by (simp add: enriched_def)
next
  case (Cons m ms)
  let ?w1 = "w\<lparr>uuid_n := Suc (uuid_n w), clock_n := Suc (clock_n w)\<rparr>"
  have "enriched w (m # ms) = enrich_at w 0 m # enriched ?w1 ms"
    by (rule enriched_Cons) simp_all
  then show ?case
    by (simp add: addMetadata_eq Cons.IH)
qed

lemma enriched_io [simp]: "enriched (w\<lparr>io_n := n\<rparr>) ms = enriched w ms"
  by (simp add: enriched_def enrich_at_def)

lemma length_enriched [simp]: "length (enriched w ms) = length ms"
  by (simp add: enriched_def)

lemma removeMetadata_enrich_at:
  "''id'' \<notin> keys m \<Longrightarrow> ''createdAt'' \<notin> keys m \<Longrightarrow> removeMetadata (enrich_at w k m) = m"
  by (simp add: enrich_at_def removeMetadata_update_fresh)

lemma removeMetadata_enriched:
  assumes "\<forall>m \<in> set ms. valid_Message m"
  shows "map removeMetadata (enriched w ms) = ms"
proof (rule nth_equalityI)
  show "length (map removeMetadata (enriched w ms)) = length ms" by simp
next
  fix i assume "i < length (map removeMetadata (enriched w ms))"
  then have i: "i < length ms" by simp
  then have "valid_Message (ms ! i)" using assms by simp
  then have "removeMetadata (enrich_at w i (ms ! i)) = ms ! i"
    using valid_Message_fresh removeMetadata_enrich_at by blast
  with i show "map removeMetadata (enriched w ms) ! i = ms ! i"
    by (simp add: enriched_def)
qed

lemma keys_removeMetadata:
  "''id'' \<notin> keys (removeMetadata s) \<and> ''createdAt'' \<notin> keys (removeMetadata s)"
proof -
  have "''id'' \<notin> fst ` set (AList.delete ''id'' s)"
    by (rule delete_notin_dom)
  moreover have "fst ` set (AList.delete ''createdAt'' (AList.delete ''id'' s))
                 \<subseteq> fst ` set (AList.delete ''id'' s)"
    by (rule dom_delete_subset)
  moreover have "''createdAt'' \<notin> fst ` set (AList.delete ''createdAt'' (AList.delete ''id'' s))"
    by (rule delete_notin_dom)
  ultimately show ?thesis
    by (auto simp: keys_def removeMetadata_def)
qed

lemma field_enrich_at:
  "field (enrich_at w k m) ''id'' = Some (JString (uuid_src w (uuid_n w + k)))"
  "field (enrich_at w k m) ''createdAt'' = Some (JString (clock_src w (clock_n w + k)))"
  by (simp_all add: field_def enrich_at_def update_conv')


lemma enriched_two: "enriched w [m1, m2] = [enrich_at w 0 m1, enrich_at w 1 m2]"
  by (simp add: enriched_def)


subsection \<open>What the operations do to the world\<close>

lemma getMessages_eq:
  "getMessages w =
     (if io_fail w (io_n w) then Inl PersistenceError
      else Inr (map removeMetadata (loaded w)),
      w\<lparr>io_n := Suc (io_n w)\<rparr>)"
  by (simp add: getMessages_def getDb_def db_data_def loaded_def split: option.splits)

lemma addMessages_fst:
  "fst (addMessages ms w) =
     (if io_fail w (io_n w) \<or> io_fail w (Suc (io_n w)) then Inl PersistenceError else Inr ())"
  by (simp add: addMessages_def getDb_def map_addMetadata_eq push_messages_def db_write_def
      split: option.splits)

lemma addMessages_db_json:
  "db_json (snd (addMessages ms w)) =
     (if io_fail w (io_n w) \<or> io_fail w (Suc (io_n w)) then db_json w
      else Some (loaded w @ enriched w ms))"
  by (simp add: addMessages_def getDb_def map_addMetadata_eq push_messages_def db_write_def
      db_data_def loaded_def split: option.splits)

lemma addMessages_defaultData:
  "messages (defaultData (snd (addMessages ms w))) =
     (if \<not> io_fail w (io_n w) \<and> db_json w = None
      then messages (defaultData w) @ enriched w ms
      else messages (defaultData w))"
  by (simp add: addMessages_def getDb_def map_addMetadata_eq push_messages_def db_write_def
      split: option.splits)

lemma addMessages_generators:
  "uuid_src (snd (addMessages ms w)) = uuid_src w"
  "clock_src (snd (addMessages ms w)) = clock_src w"
  "io_fail (snd (addMessages ms w)) = io_fail w"
  by (simp_all add: addMessages_def getDb_def map_addMetadata_eq push_messages_def db_write_def
      split: option.splits)

lemma addMessages_counters:
  "\<not> io_fail w (io_n w) \<Longrightarrow> io_n (snd (addMessages ms w)) = Suc (Suc (io_n w))"
  "\<not> io_fail w (io_n w) \<Longrightarrow> uuid_n (snd (addMessages ms w)) = uuid_n w + length ms"
  "\<not> io_fail w (io_n w) \<Longrightarrow> clock_n (snd (addMessages ms w)) = clock_n w + length ms"
  by (simp_all add: addMessages_def getDb_def map_addMetadata_eq push_messages_def db_write_def
      split: option.splits)

lemma addMessages_Inr:
  assumes "addMessages ms w = (Inr u, w')"
  shows "db_json w' = Some (loaded w @ enriched w ms)"
    and "loaded w' = loaded w @ enriched w ms"
proof -
  have ok: "\<not> (io_fail w (io_n w) \<or> io_fail w (Suc (io_n w)))"
    using addMessages_fst [of ms w] assms by (auto split: if_splits)
  have w': "w' = snd (addMessages ms w)"
    using assms by simp
  show "db_json w' = Some (loaded w @ enriched w ms)"
    using ok by (simp add: w' addMessages_db_json)
  then show "loaded w' = loaded w @ enriched w ms"
    by (simp add: loaded_def)
qed

lemma addMessages_Inl:
  assumes "addMessages ms w = (Inl e, w')"
  shows "db_json w' = db_json w" and "e = PersistenceError"
proof -
  have bad: "io_fail w (io_n w) \<or> io_fail w (Suc (io_n w))" and e: "e = PersistenceError"
    using addMessages_fst [of ms w] assms by (auto split: if_splits)
  have w': "w' = snd (addMessages ms w)"
    using assms by simp
  show "db_json w' = db_json w"
    using bad by (simp add: w' addMessages_db_json)
  show "e = PersistenceError" by (rule e)
qed

lemma getMessages_Inr:
  assumes "getMessages w = (Inr h, w')"
  shows "h = map removeMetadata (loaded w)" and "loaded w' = loaded w"
  using assms by (auto simp: getMessages_eq loaded_def split: if_splits option.splits)

text \<open>
  A failed write leaves the pushed messages in the shared \<open>defaultData\<close> object when the
  document is absent, and nowhere when the document exists: in the first case the next
  opening yields them, in the second it does not.
\<close>

lemma addMessages_failed_write_absent:
  assumes "db_json w = None" and "\<not> io_fail w (io_n w)" and "io_fail w (Suc (io_n w))"
  shows "fst (addMessages ms w) = Inl PersistenceError"
    and "loaded (snd (addMessages ms w)) = loaded w @ enriched w ms"
  using assms
  by (simp_all add: addMessages_fst loaded_def addMessages_db_json addMessages_defaultData)

lemma addMessages_failed_write_document:
  assumes "db_json w = Some xs" and "\<not> io_fail w (io_n w)" and "io_fail w (Suc (io_n w))"
  shows "fst (addMessages ms w) = Inl PersistenceError"
    and "loaded (snd (addMessages ms w)) = loaded w"
  using assms
  by (simp_all add: addMessages_fst loaded_def addMessages_db_json)

subsection \<open>Appending and reading back\<close>

text \<open>
  C2. Whatever the store holds, when \<open>getMessages\<close> has returned the history \<open>h0\<close> and
  \<open>addMessages [m1, m2]\<close> then succeeds, the next \<open>getMessages\<close> returns \<open>h0\<close> followed
  by \<open>m1\<close> and \<open>m2\<close> in this order. The document then ends with two stored messages that
  carry the answers of two separate calls of \<open>uuidv4\<close> and of two separate readings of
  the clock: the first the next answer of each generator, the second the one after it.
\<close>

theorem addMessages_then_getMessages:
  assumes "valid_Message m1" and "valid_Message m2"
    and "getMessages w = (Inr h0, wa)"
    and "addMessages [m1, m2] wa = (Inr u, wb)"
    and "getMessages wb = (Inr h, wc)"
  shows "h = h0 @ [m1, m2] \<and>
         (\<exists>s1 s2. db_json wb = Some (loaded wa @ [s1, s2]) \<and>
            field s1 ''id'' = Some (JString (uuid_src wa (uuid_n wa))) \<and>
            field s1 ''createdAt'' = Some (JString (clock_src wa (clock_n wa))) \<and>
            field s2 ''id'' = Some (JString (uuid_src wa (Suc (uuid_n wa)))) \<and>
            field s2 ''createdAt'' = Some (JString (clock_src wa (Suc (clock_n wa)))))"
proof -
  have h0: "h0 = map removeMetadata (loaded w)" and wa: "loaded wa = loaded w"
    using getMessages_Inr [OF assms(3)] by simp_all
  have db: "db_json wb = Some (loaded wa @ [enrich_at wa 0 m1, enrich_at wa 1 m2])"
    and wb: "loaded wb = loaded wa @ [enrich_at wa 0 m1, enrich_at wa 1 m2]"
    using addMessages_Inr [OF assms(4)] by (simp_all add: enriched_two)
  have h: "h = map removeMetadata (loaded wb)"
    using getMessages_Inr(1) [OF assms(5)] .
  have "removeMetadata (enrich_at wa 0 m1) = m1" "removeMetadata (enrich_at wa 1 m2) = m2"
    using assms(1,2) valid_Message_fresh removeMetadata_enrich_at by blast+
  then have "h = h0 @ [m1, m2]"
    by (simp add: h wb h0 wa)
  moreover have "field (enrich_at wa 0 m1) ''id'' = Some (JString (uuid_src wa (uuid_n wa)))"
    "field (enrich_at wa 0 m1) ''createdAt'' = Some (JString (clock_src wa (clock_n wa)))"
    "field (enrich_at wa 1 m2) ''id'' = Some (JString (uuid_src wa (Suc (uuid_n wa))))"
    "field (enrich_at wa 1 m2) ''createdAt'' = Some (JString (clock_src wa (Suc (clock_n wa))))"
    by (simp_all add: field_enrich_at)
  ultimately show ?thesis
    using db by blast
qed

theorem addMessages_then_getMessages_witness:
  "valid_Message msg_user \<and> valid_Message msg_assistant \<and>
   fst (getMessages world0) = Inr [] \<and>
   fst (addMessages [msg_user, msg_assistant] (snd (getMessages world0))) = Inr () \<and>
   fst (getMessages (snd (addMessages [msg_user, msg_assistant] (snd (getMessages world0)))))
     = Inr [msg_user, msg_assistant]"
proof -
  let ?wa = "snd (getMessages world0)"
  let ?wb = "snd (addMessages [msg_user, msg_assistant] ?wa)"
  have f0: "fst (getMessages world0) = Inr []"
    by (simp add: getMessages_eq world0_def loaded_def)
  have fa: "fst (addMessages [msg_user, msg_assistant] ?wa) = Inr ()"
    by (simp add: addMessages_fst getMessages_eq world0_def)
  obtain h where fg: "fst (getMessages ?wb) = Inr h"
    by (simp add: getMessages_eq addMessages_generators addMessages_counters world0_def)
  have g0: "getMessages world0 = (Inr [], ?wa)"
    using f0 by (simp add: prod_eq_iff)
  have a: "addMessages [msg_user, msg_assistant] ?wa = (Inr (), ?wb)"
    using fa by (simp add: prod_eq_iff)
  have g: "getMessages ?wb = (Inr h, snd (getMessages ?wb))"
    using fg by (simp add: prod_eq_iff)
  from addMessages_then_getMessages [OF valid_msg_user valid_msg_assistant g0 a g]
  have "h = [msg_user, msg_assistant]" by simp
  with f0 fa fg valid_msg_user valid_msg_assistant show ?thesis by simp
qed



subsection \<open>Reading after a failed append\<close>

text \<open>
  C7. In a new process without a document, an \<open>addMessages\<close> whose write fails reports a
  PersistenceError and leaves the document absent: the store is empty and no message
  was appended to it. The next \<open>getMessages\<close> nevertheless returns the message of the
  failed call instead of the empty list.
\<close>

theorem getMessages_after_failed_append:
  "db_json world0_write_fails = None \<and>
   messages (defaultData world0_write_fails) = [] \<and>
   fst (addMessages [msg_user] world0_write_fails) = Inl PersistenceError \<and>
   db_json (snd (addMessages [msg_user] world0_write_fails)) = None \<and>
   fst (getMessages (snd (addMessages [msg_user] world0_write_fails))) = Inr [msg_user]"
proof -
  have w: "db_json world0_write_fails = None" "messages (defaultData world0_write_fails) = []"
    "\<not> io_fail world0_write_fails (io_n world0_write_fails)"
    "io_fail world0_write_fails (Suc (io_n world0_write_fails))"
    "\<not> io_fail world0_write_fails (Suc (Suc (io_n world0_write_fails)))"
    by (simp_all add: world0_write_fails_def world0_def)
  have l: "loaded (snd (addMessages [msg_user] world0_write_fails))
           = enriched world0_write_fails [msg_user]"
    using addMessages_failed_write_absent(2) [OF w(1,3,4)] w(1,2) by (simp add: loaded_def)
  have "map removeMetadata (enriched world0_write_fails [msg_user]) = [msg_user]"
    using valid_msg_user by (simp add: removeMetadata_enriched)
  then have "fst (getMessages (snd (addMessages [msg_user] world0_write_fails)))
             = Inr [msg_user]"
    using w(3,5) l
    by (simp add: getMessages_eq addMessages_generators addMessages_counters)
  then show ?thesis
    using w(1,2,3,4) by (simp add: addMessages_fst addMessages_db_json)
qed

text \<open>
  With a document, the same failure leaves no trace: the next \<open>getMessages\<close> returns what
  the document held before.
\<close>

lemma getMessages_after_failed_append_document:
  "fst (addMessages [msg_assistant] world_write_fails) = Inl PersistenceError \<and>
   fst (getMessages (snd (addMessages [msg_assistant] world_write_fails))) = Inr [msg_user]"
proof -
  have w: "db_json world_write_fails = Some [stored_user]"
    "\<not> io_fail world_write_fails (io_n world_write_fails)"
    "io_fail world_write_fails (Suc (io_n world_write_fails))"
    "\<not> io_fail world_write_fails (Suc (Suc (io_n world_write_fails)))"
    by (simp_all add: world_write_fails_def world1_def world0_def)
  have "loaded (snd (addMessages [msg_assistant] world_write_fails)) = [stored_user]"
    using addMessages_failed_write_document(2) [OF w(1,2,3)] w(1) by (simp add: loaded_def)
  moreover have "removeMetadata stored_user = msg_user"
    by (simp add: removeMetadata_def stored_user_def msg_user_def)
  ultimately show ?thesis
    using w(2,3,4)
    by (simp add: getMessages_eq addMessages_generators addMessages_counters addMessages_fst)
qed

text \<open>
  What holds of \<open>getMessages\<close>: it returns the messages that the opening yields, without
  their metadata; after successful appends only, to a store whose opening yielded
  nothing, these are the appended messages in order.
\<close>

lemma addMessages_all_loaded:
  assumes "addMessages_all bs w = (Inr u, w1)"
    and "\<forall>b \<in> set bs. \<forall>m \<in> set b. valid_Message m"
  shows "map removeMetadata (loaded w1) = map removeMetadata (loaded w) @ concat bs"
  using assms
proof (induction bs arbitrary: w)
  case Nil
  then show ?case by simp
next
  case (Cons b bs)
  from Cons.prems(1) obtain u' w' where
    step: "addMessages b w = (Inr u', w')" and rest: "addMessages_all bs w' = (Inr u, w1)"
    by (auto split: prod.splits sum.splits)
  have "map removeMetadata (loaded w') = map removeMetadata (loaded w) @ b"
    using addMessages_Inr(2) [OF step] Cons.prems(2)
    by (simp add: removeMetadata_enriched)
  moreover have "map removeMetadata (loaded w1) = map removeMetadata (loaded w') @ concat bs"
    using Cons.IH [OF rest] Cons.prems(2) by simp
  ultimately show ?case by simp
qed

lemma getMessages_loaded:
  assumes "getMessages w1 = (Inr h, w2)"
  shows "(loaded w1 = [] \<longrightarrow> h = []) \<and>
         (\<forall>w bs u. loaded w = [] \<and> (\<forall>b \<in> set bs. \<forall>m \<in> set b. valid_Message m) \<and>
                    addMessages_all bs w = (Inr u, w1) \<longrightarrow> h = concat bs) \<and>
         length h = length (loaded w1) \<and>
         (\<forall>m \<in> set h. ''id'' \<notin> keys m \<and> ''createdAt'' \<notin> keys m)"
proof -
  have h: "h = map removeMetadata (loaded w1)"
    using getMessages_Inr(1) [OF assms] .
  have "h = concat bs"
    if "loaded w = []" "\<forall>b \<in> set bs. \<forall>m \<in> set b. valid_Message m"
      "addMessages_all bs w = (Inr u, w1)" for w bs u
    using addMessages_all_loaded [OF that(3) that(2)] that(1) h by simp
  moreover have "\<forall>m \<in> set h. ''id'' \<notin> keys m \<and> ''createdAt'' \<notin> keys m"
    using keys_removeMetadata by (auto simp: h)
  ultimately show ?thesis
    using h by auto
qed

subsection \<open>All or nothing on the document\<close>

text \<open>
  C8. \<open>addMessages\<close> is all or nothing on the document: when it fails it reports a
  PersistenceError and the document is exactly what it was before the call (absent
  if it was absent); when it succeeds the document holds the messages that the opening
  yielded followed by every given message, enriched, in the given order.
\<close>

theorem addMessages_all_or_nothing:
  "case addMessages ms w of
     (Inl e, w') \<Rightarrow> e = PersistenceError \<and> db_json w' = db_json w
   | (Inr u, w') \<Rightarrow> db_json w' = Some (loaded w @ enriched w ms)"
proof (cases "addMessages ms w")
  case (Pair r w')
  show ?thesis
  proof (cases r)
    case (Inl e)
    with Pair addMessages_Inl [of ms w e w'] show ?thesis by simp
  next
    case (Inr u)
    with Pair addMessages_Inr(1) [of ms w u w'] show ?thesis by simp
  qed
qed

theorem addMessages_all_or_nothing_witness:
  "fst (addMessages [msg_assistant] world_write_fails) = Inl PersistenceError \<and>
   db_json (snd (addMessages [msg_assistant] world_write_fails)) = Some [stored_user] \<and>
   fst (addMessages [msg_assistant] world0) = Inr () \<and>
   db_json (snd (addMessages [msg_assistant] world0))
     = Some [msg_assistant @ [(''id'', JString ''u''), (''createdAt'', JString ''t'')]]"
proof -
  have f: "fst (addMessages [msg_assistant] world_write_fails) = Inl PersistenceError"
    by (simp add: addMessages_fst world_write_fails_def world1_def world0_def)
  have s: "fst (addMessages [msg_assistant] world0) = Inr ()"
    by (simp add: addMessages_fst world0_def)
  have d: "db_json world_write_fails = Some [stored_user]" "loaded world0 = []"
    "enriched world0 [msg_assistant]
       = [msg_assistant @ [(''id'', JString ''u''), (''createdAt'', JString ''t'')]]"
    by (simp_all add: world_write_fails_def world1_def world0_def loaded_def enriched_def
        enrich_at_def msg_assistant_def)
  from addMessages_all_or_nothing [where ms = "[msg_assistant]" and w = world_write_fails]
    addMessages_all_or_nothing [where ms = "[msg_assistant]" and w = world0] f s d
  show ?thesis
    by (auto split: prod.splits sum.splits)
qed

text \<open>
  The retry after a failed write in a new process without a document: the failed call
  leaves the document absent, and the successful call then writes the message of the
  failed call before its own.
\<close>

lemma addMessages_retry_after_failed_write:
  "db_json (snd (addMessages [msg_user] world0_write_fails)) = None \<and>
   fst (addMessages [msg_assistant] (snd (addMessages [msg_user] world0_write_fails))) = Inr () \<and>
   map removeMetadata
     (document (snd (addMessages [msg_assistant] (snd (addMessages [msg_user] world0_write_fails)))))
     = [msg_user, msg_assistant]"
proof -
  let ?w1 = "snd (addMessages [msg_user] world0_write_fails)"
  have w: "db_json world0_write_fails = None" "messages (defaultData world0_write_fails) = []"
    "\<not> io_fail world0_write_fails (io_n world0_write_fails)"
    "io_fail world0_write_fails (Suc (io_n world0_write_fails))"
    "\<not> io_fail world0_write_fails (Suc (Suc (io_n world0_write_fails)))"
    "\<not> io_fail world0_write_fails (Suc (Suc (Suc (io_n world0_write_fails))))"
    by (simp_all add: world0_write_fails_def world0_def)
  have d1: "db_json ?w1 = None"
    using w by (simp add: addMessages_db_json)
  have l1: "loaded ?w1 = enriched world0_write_fails [msg_user]"
    using addMessages_failed_write_absent(2) [OF w(1,3,4)] w(1,2) by (simp add: loaded_def)
  have ok: "fst (addMessages [msg_assistant] ?w1) = Inr ()"
    using w by (simp add: addMessages_fst addMessages_generators addMessages_counters)
  then have "addMessages [msg_assistant] ?w1 = (Inr (), snd (addMessages [msg_assistant] ?w1))"
    by (simp add: prod_eq_iff)
  from addMessages_Inr(1) [OF this]
  have "document (snd (addMessages [msg_assistant] ?w1))
        = enriched world0_write_fails [msg_user] @ enriched ?w1 [msg_assistant]"
    by (simp add: document_def l1)
  then show ?thesis
    using d1 ok valid_msg_user valid_msg_assistant
    by (simp add: removeMetadata_enriched)
qed

subsection \<open>Successive enrichments\<close>

lemma addMetadata_twice:
  assumes "addMetadata m w = (s1, w1)" and "addMetadata m w1 = (s2, w2)"
  shows "field s1 ''id'' = Some (JString (uuid_src w (uuid_n w)))"
    and "field s2 ''id'' = Some (JString (uuid_src w (Suc (uuid_n w))))"
    and "field s1 ''createdAt'' = Some (JString (clock_src w (clock_n w)))"
    and "field s2 ''createdAt'' = Some (JString (clock_src w (Suc (clock_n w))))"
  using assms
  by (auto simp: addMetadata_eq field_enrich_at)

lemma replicate_le_replicate:
  "m \<le> n \<Longrightarrow> replicate m (c::char) \<le> replicate n c"
proof (induction m arbitrary: n)
  case 0
  show ?case by simp
next
  case (Suc m)
  then obtain n' where "n = Suc n'" "m \<le> n'"
    by (cases n) simp_all
  with Suc.IH show ?case by simp
qed

lemma generators_ok_world0: "generators_ok world0"
proof -
  have "replicate (Suc i) CHR ''u'' \<noteq> replicate (Suc j) CHR ''u''" if "i \<noteq> j" for i j
  proof
    assume "replicate (Suc i) CHR ''u'' = replicate (Suc j) CHR ''u''"
    then have "length (replicate (Suc i) CHR ''u'') = length (replicate (Suc j) CHR ''u'')"
      by (rule arg_cong)
    with that show False by simp
  qed
  moreover have "replicate (Suc i) CHR ''t'' \<le> replicate (Suc j) CHR ''t''" if "i \<le> j" for i j
    using that replicate_le_replicate [of "Suc i" "Suc j"] by simp
  ultimately show ?thesis
    unfolding generators_ok_def world0_def by simp
qed

text \<open>
  C9. With an identifier generator that never repeats an answer and a clock that does
  not go back, two successive calls of \<open>addMetadata\<close> on a message give two stored
  messages whose \<open>id\<close> fields differ and whose \<open>createdAt\<close> fields are in non-decreasing
  order, in the order of the calls. This holds for every message, whatever fields
  it has.
\<close>

theorem addMetadata_successive:
  assumes "generators_ok w"
    and "addMetadata m w = (s1, w1)" and "addMetadata m w1 = (s2, w2)"
  shows "\<exists>i1 i2 t1 t2.
           field s1 ''id'' = Some (JString i1) \<and> field s2 ''id'' = Some (JString i2) \<and>
           i1 \<noteq> i2 \<and>
           field s1 ''createdAt'' = Some (JString t1) \<and>
           field s2 ''createdAt'' = Some (JString t2) \<and> t1 \<le> t2"
proof -
  have "uuid_src w (uuid_n w) \<noteq> uuid_src w (Suc (uuid_n w))"
    and "clock_src w (clock_n w) \<le> clock_src w (Suc (clock_n w))"
    using assms(1) by (simp_all add: generators_ok_def)
  with addMetadata_twice [OF assms(2,3)] show ?thesis
    by blast
qed

theorem addMetadata_successive_witness:
  "generators_ok world0 \<and>
   field (fst (addMetadata msg_user world0)) ''id'' = Some (JString ''u'') \<and>
   field (fst (addMetadata msg_user (snd (addMetadata msg_user world0)))) ''id''
     = Some (JString ''uu'') \<and>
   field (fst (addMetadata msg_user world0)) ''createdAt'' = Some (JString ''t'') \<and>
   field (fst (addMetadata msg_user (snd (addMetadata msg_user world0)))) ''createdAt''
     = Some (JString ''tt'') \<and>
   ''u'' \<noteq> ''uu'' \<and> ''t'' \<le> ''tt''"
proof -
  let ?w1 = "snd (addMetadata msg_user world0)"
  have a1: "addMetadata msg_user world0 = (fst (addMetadata msg_user world0), ?w1)"
    and a2: "addMetadata msg_user ?w1
             = (fst (addMetadata msg_user ?w1), snd (addMetadata msg_user ?w1))"
    by simp_all
  have v: "field (fst (addMetadata msg_user world0)) ''id'' = Some (JString ''u'')"
    "field (fst (addMetadata msg_user ?w1)) ''id'' = Some (JString ''uu'')"
    "field (fst (addMetadata msg_user world0)) ''createdAt'' = Some (JString ''t'')"
    "field (fst (addMetadata msg_user ?w1)) ''createdAt'' = Some (JString ''tt'')"
    by (simp_all add: addMetadata_eq field_enrich_at world0_def)
  from addMetadata_successive [OF generators_ok_world0 a1 a2] v
  have "''u'' \<noteq> ''uu'' \<and> ''t'' \<le> ''tt''" by auto
  with generators_ok_world0 v show ?thesis by simp
qed


section \<open>The request of the invocation component\<close>

text \<open>
  C4. For every model, temperature, message list and tool list, \<open>runLLM\<close> submits one
  request, and this request has \<open>tool_choice = "auto"\<close> and
  \<open>parallel_tool_calls = false\<close>.
\<close>

theorem runLLM_policy_flags:
  "map (\<lambda>r. (tool_choice r, parallel_tool_calls r)) (fst (runLLM systemPrompt conv create a))
     = [(''auto'', False)]"
  by (simp add: runLLM_def Let_def)

text \<open>
  C5. The messages of the submitted request are one system message, whose content is
  the system prompt, followed by the given messages, unchanged and in their order.
\<close>

theorem runLLM_messages:
  "map req_messages (fst (runLLM systemPrompt conv create a))
     = [[(''role'', JString ''system''), (''content'', JString systemPrompt)] # arg_messages a]"
  by (simp add: runLLM_def Let_def)

text \<open>
  C6. With \<open>tools = []\<close> the submitted request has no tool definition and its
  \<open>tool_choice\<close> is still \<open>"auto"\<close>; with exactly one tool descriptor it has exactly
  one tool definition, whose name is the name of the descriptor.
\<close>

theorem runLLM_tools:
  "(arg_tools a = Some [] \<longrightarrow>
      map req_tools (fst (runLLM systemPrompt conv create a)) = [[]] \<and>
      map tool_choice (fst (runLLM systemPrompt conv create a)) = [''auto'']) \<and>
   (\<forall>t. arg_tools a = Some [t] \<longrightarrow>
      (\<exists>d. map req_tools (fst (runLLM systemPrompt conv create a)) = [[d]] \<and>
           fn_name d = name t))"
  by (simp add: runLLM_def Let_def zodFunction_def)

theorem runLLM_tools_witness:
  "arg_tools args0 = Some [] \<and>
   map req_tools (fst (runLLM ''be brief'' schema0 endpoint_reply args0)) = [[]] \<and>
   map tool_choice (fst (runLLM ''be brief'' schema0 endpoint_reply args0)) = [''auto''] \<and>
   arg_tools (args0\<lparr>arg_tools := Some [tool0]\<rparr>) = Some [tool0] \<and>
   (\<exists>d. map req_tools
          (fst (runLLM ''be brief'' schema0 endpoint_reply (args0\<lparr>arg_tools := Some [tool0]\<rparr>)))
          = [[d]] \<and> fn_name d = ''get_weather'')"
proof -
  have a: "arg_tools args0 = Some []"
    "arg_tools (args0\<lparr>arg_tools := Some [tool0]\<rparr>) = Some [tool0]"
    "name tool0 = ''get_weather''"
    by (simp_all add: args0_def tool0_def)
  from runLLM_tools [where a = args0 and systemPrompt = "''be brief''" and conv = schema0
      and create = endpoint_reply]
    runLLM_tools [where a = "args0\<lparr>arg_tools := Some [tool0]\<rparr>"
      and systemPrompt = "''be brief''" and conv = schema0 and create = endpoint_reply]
    a
  show ?thesis by simp
qed

text \<open>
  C10. \<open>runLLM\<close> reads \<open>response.choices[0].message\<close> without a guard. When the
  response of the endpoint has at least one choice, the result is the message of the
  first choice; when its list of choices is empty, the access fails with a TypeError.
\<close>

theorem runLLM_first_choice:
  assumes "fst (runLLM systemPrompt conv create a) = [req]"
    and "create req = Inr response"
  shows "(choices response \<noteq> [] \<longrightarrow>
            snd (runLLM systemPrompt conv create a) = Inr (message (choices response ! 0))) \<and>
         (choices response = [] \<longrightarrow>
            snd (runLLM systemPrompt conv create a) = Inl TypeError)"
  using assms
  by (auto simp: runLLM_def Let_def split: list.splits)

theorem runLLM_first_choice_witness:
  "snd (runLLM ''be brief'' schema0 endpoint_reply args0) = Inr msg_assistant \<and>
   snd (runLLM ''be brief'' schema0 endpoint_empty args0) = Inl TypeError"
proof -
  obtain r1 where r1: "fst (runLLM ''be brief'' schema0 endpoint_reply args0) = [r1]"
    by (simp add: runLLM_def Let_def)
  obtain r2 where r2: "fst (runLLM ''be brief'' schema0 endpoint_empty args0) = [r2]"
    by (simp add: runLLM_def Let_def)
  have e1: "endpoint_reply r1
            = Inr \<lparr>choices = [\<lparr>message = msg_assistant\<rparr>]\<rparr>"
    by (simp add: endpoint_reply_def)
  have e2: "endpoint_empty r2 = Inr \<lparr>choices = []\<rparr>"
    by (simp add: endpoint_empty_def)
  from runLLM_first_choice [OF r1 e1] runLLM_first_choice [OF r2 e2]
  show ?thesis by simp
qed

end
